theory Spec2Isabelle
  imports Complex_Main "HOL-Library.Log_Nat"
begin

section \<open>The MessageItem component and the useNativeBehavior hook\<close>

text \<open>
  The repository is one React component, \<^verbatim>\<open>MessageItem\<close>, and one hook,
  \<^verbatim>\<open>useNativeBehavior\<close>. The component's \<^verbatim>\<open>useState\<close> cells are a record, every
  event handler is a function on that record, and what a handler does to the outside
  (the parent's callback, \<^verbatim>\<open>alert\<close>, \<^verbatim>\<open>console.error\<close>, the clipboard) is appended to a
  log. A \<^verbatim>\<open>setX(v)\<close> call is the record update of field \<^verbatim>\<open>X\<close>: React re-renders after
  every handler, so each handler reads the state its predecessor left. An \<^verbatim>\<open>async\<close>
  handler is split at its \<^verbatim>\<open>await\<close>: the part before it runs with the click, the part
  after it runs when the awaited promise settles, and other events may come in between.
\<close>

subsection \<open>Properties and state\<close>

datatype mediaType = Photo | Video | Audio | Document

text \<open>
  What a promise rejects with is an arbitrary JavaScript value (\<^verbatim>\<open>catch (error: any)\<close>).
  Reading \<^verbatim>\<open>error.message\<close> throws a TypeError when the value is \<^verbatim>\<open>null\<close> or
  \<^verbatim>\<open>undefined\<close>; on every other value it yields the property, a string here, or
  \<^verbatim>\<open>undefined\<close> when there is none.
\<close>

datatype reason = Nullish | HasMessage "string option"

datatype outcome = Fulfilled | Rejected reason

text \<open>
  The parent's \<^verbatim>\<open>onDelete\<close> returns a promise; \<open>None\<close> is a promise that never
  settles.
\<close>

type_synonym onDelete_fn = "string \<Rightarrow> bool \<Rightarrow> outcome option"

text \<open>
  The properties the handlers and the menus read. Optional properties are options;
  the fields that are only displayed (timestamp, sender photo, read and delivery lists)
  are left out.
\<close>

record props =
  id' :: string
  text' :: string
  isMe :: bool
  senderName :: string
  mediaUrl :: "string option"
  mediaType :: "mediaType option"
  fileName :: "string option"
  onDelete :: "onDelete_fn option"
  isGroupChat :: "bool option"
  isAdmin :: "bool option"
  isGroupCreator :: "bool option"

datatype menu_position = Bottom | Top

record component =
  showMenu :: bool
  isPlaying :: bool
  isDeleting :: bool
  showDeleteOptions :: bool
  isMediaLoading :: bool
  showFullImage :: bool
  menuPosition :: menu_position

datatype effect =
    OnDeleteCall string bool
  | ConsoleError string
  | Alert string
  | ClipboardWrite string
  | ShareCall string string "string option"
  | AudioPlay
  | AudioPause

record world =
  ui :: component
  effects :: "effect list"

definition initial_component :: component where
  "initial_component =
     \<lparr>showMenu = False, isPlaying = False, isDeleting = False, showDeleteOptions = False,
      isMediaLoading = True, showFullImage = False, menuPosition = Bottom\<rparr>"

definition initial_world :: world where
  "initial_world = \<lparr>ui = initial_component, effects = []\<rparr>"

definition set_ui :: "(component \<Rightarrow> component) \<Rightarrow> world \<Rightarrow> world" where
  "set_ui f w = w\<lparr>ui := f (ui w)\<rparr>"

definition emit :: "effect \<Rightarrow> world \<Rightarrow> world" where
  "emit e w = w\<lparr>effects := effects w @ [e]\<rparr>"

subsection \<open>JavaScript truthiness\<close>

definition truthy_string :: "string option \<Rightarrow> bool" where
  "truthy_string v = (case v of None \<Rightarrow> False | Some t \<Rightarrow> t \<noteq> [])"

definition truthy_bool :: "bool option \<Rightarrow> bool" where
  "truthy_bool v = (case v of None \<Rightarrow> False | Some b \<Rightarrow> b)"

text \<open>\<^verbatim>\<open>a || b\<close> is \<^verbatim>\<open>a\<close> when \<^verbatim>\<open>a\<close> is truthy and \<^verbatim>\<open>b\<close> otherwise.\<close>

definition or_bool :: "bool option \<Rightarrow> bool option \<Rightarrow> bool option" where
  "or_bool a b = (if truthy_bool a then a else b)"

definition or_string :: "string option \<Rightarrow> string \<Rightarrow> string" where
  "or_string a b = (case a of None \<Rightarrow> b | Some t \<Rightarrow> if t \<noteq> [] then t else b)"

subsection \<open>JavaScript numbers\<close>

text \<open>
  A JavaScript number is an IEEE 754 double. The lengths the component reads from the
  document (\<^verbatim>\<open>window.innerHeight\<close>, the sides of a bounding rectangle) are finite, and a
  finite double is written as the real number it denotes. An arithmetic operation yields
  the exact result rounded to the nearest double, ties to the even significand: 53
  significant bits, the spacing of the subnormal range below \<open>2 ^ -1022\<close>, and an
  infinity once the rounded magnitude reaches \<open>2 ^ 1024\<close>. The difference of two finite
  doubles is never NaN, and the sign of a zero makes no difference to \<^verbatim>\<open><\<close>.
\<close>

datatype number = Finite real | PosInfinity | NegInfinity

definition pow2 :: "int \<Rightarrow> real" where
  "pow2 k = (if 0 \<le> k then 2 ^ nat k else 1 / 2 ^ nat (- k))"

text \<open>The binary exponent of a non-zero \<open>x\<close>: the \<open>e\<close> with \<open>2 ^ e \<le> \<bar>x\<bar> < 2 ^ (e + 1)\<close>.\<close>

definition exponent :: "real \<Rightarrow> int" where
  "exponent x =
     (if 1 \<le> \<bar>x\<bar> then bitlen \<lfloor>\<bar>x\<bar>\<rfloor> - 1
      else - bitlen (\<lceil>1 / \<bar>x\<bar>\<rceil> - 1))"

definition round_half_even :: "real \<Rightarrow> int" where
  "round_half_even y =
     (let f = \<lfloor>y\<rfloor>; d = y - of_int f
      in if d < 1 / 2 then f else if 1 / 2 < d then f + 1 else if even f then f else f + 1)"

definition round_double :: "real \<Rightarrow> number" where
  "round_double x =
     (if x = 0 then Finite 0
      else let e = max (exponent x) (- 1022);
               ulp = pow2 (e - 52);
               r = of_int (round_half_even (x / ulp)) * ulp
           in if pow2 1024 \<le> \<bar>r\<bar> then (if 0 < x then PosInfinity else NegInfinity)
              else Finite r)"

text \<open>\<^verbatim>\<open>a - b\<close> on finite doubles, and \<^verbatim>\<open>a < b\<close> for a finite \<open>b\<close>.\<close>

definition js_minus :: "real \<Rightarrow> real \<Rightarrow> number" where
  "js_minus a b = round_double (a - b)"

fun js_less :: "number \<Rightarrow> real \<Rightarrow> bool" where
  "js_less (Finite a) b = (a < b)"
| "js_less PosInfinity b = False"
| "js_less NegInfinity b = True"

subsection \<open>The document: elements, references and listeners\<close>

text \<open>
  An element is the set of nodes it contains, itself included, so that
  \<^verbatim>\<open>el.contains(target)\<close> is membership. A reference holds \<open>None\<close> while nothing is
  mounted under it.
\<close>

type_synonym node = nat
type_synonym element = "node set"

definition contains :: "element \<Rightarrow> node \<Rightarrow> bool" where
  "contains el target = (target \<in> el)"

record DOMRect =
  bottom :: real

datatype listener = HandleGesture | HandleClickOutside

record registration =
  evtype :: string
  callback :: listener
  capture :: bool
  passiveFlag :: bool

text \<open>
  \<^verbatim>\<open>addEventListener\<close> ignores a registration whose type, callback and capture flag are
  already registered; \<^verbatim>\<open>removeEventListener\<close> removes the registration with that type,
  callback and capture flag. The capture flag is \<^verbatim>\<open>false\<close> unless an option sets it.
\<close>

definition same_registration :: "string \<Rightarrow> listener \<Rightarrow> bool \<Rightarrow> registration \<Rightarrow> bool" where
  "same_registration ty cb cap r = (evtype r = ty \<and> callback r = cb \<and> capture r = cap)"

definition addEventListener ::
  "string \<Rightarrow> listener \<Rightarrow> bool \<Rightarrow> bool \<Rightarrow> registration list \<Rightarrow> registration list" where
  "addEventListener ty cb cap pas doc =
     (if list_ex (same_registration ty cb cap) doc then doc
      else doc @ [\<lparr>evtype = ty, callback = cb, capture = cap, passiveFlag = pas\<rparr>])"

definition removeEventListener ::
  "string \<Rightarrow> listener \<Rightarrow> bool \<Rightarrow> registration list \<Rightarrow> registration list" where
  "removeEventListener ty cb cap doc = filter (\<lambda>r. \<not> same_registration ty cb cap r) doc"

subsection \<open>useNativeBehavior\<close>

record TouchEvent =
  touches :: "nat list"
  defaultPrevented :: bool

definition preventDefault :: "TouchEvent \<Rightarrow> TouchEvent" where
  "preventDefault e = e\<lparr>defaultPrevented := True\<rparr>"

definition handleGesture :: "TouchEvent \<Rightarrow> TouchEvent" where
  "handleGesture e = (if length (touches e) > 1 then preventDefault e else e)"

text \<open>The body of the effect, run on mount, and the function it returns, run on unmount.\<close>

definition useNativeBehavior_effect :: "registration list \<Rightarrow> registration list" where
  "useNativeBehavior_effect doc = addEventListener ''touchstart'' HandleGesture False False doc"

definition useNativeBehavior_cleanup :: "registration list \<Rightarrow> registration list" where
  "useNativeBehavior_cleanup doc = removeEventListener ''touchstart'' HandleGesture False doc"

text \<open>
  Dispatching a touchstart event runs every listener registered for it, in order. A
  passive registration cannot cancel the event: its \<^verbatim>\<open>preventDefault\<close> is ignored.
\<close>

definition run_listener :: "registration \<Rightarrow> TouchEvent \<Rightarrow> TouchEvent" where
  "run_listener r e =
     (if evtype r = ''touchstart'' \<and> callback r = HandleGesture \<and> \<not> passiveFlag r
      then handleGesture e else e)"

definition dispatch_touchstart :: "registration list \<Rightarrow> TouchEvent \<Rightarrow> TouchEvent" where
  "dispatch_touchstart doc e = fold run_listener doc e"

subsection \<open>The handlers of MessageItem\<close>

definition calculateMenuPosition :: "DOMRect option \<Rightarrow> real \<Rightarrow> component \<Rightarrow> component" where
  "calculateMenuPosition messageRef innerHeight s =
     (case messageRef of
        None \<Rightarrow> s
      | Some messageRect \<Rightarrow>
          (let windowHeight = innerHeight;
               spaceBelow = js_minus windowHeight (bottom messageRect)
           in s\<lparr>menuPosition := (if js_less spaceBelow 200 then Top else Bottom)\<rparr>))"

definition handleMessageClick :: "DOMRect option \<Rightarrow> real \<Rightarrow> component \<Rightarrow> component" where
  "handleMessageClick messageRef innerHeight s =
     (if \<not> showDeleteOptions s
      then (calculateMenuPosition messageRef innerHeight s)\<lparr>showMenu := \<not> showMenu s\<rparr>
      else s)"

definition handleClickOutside ::
  "element option \<Rightarrow> element option \<Rightarrow> node \<Rightarrow> component \<Rightarrow> component" where
  "handleClickOutside messageRef menuRef target s =
     (if showMenu s \<or> showDeleteOptions s then
        (let isClickOutsideMessage =
               (case messageRef of None \<Rightarrow> False | Some el \<Rightarrow> \<not> contains el target);
             isClickOutsideMenu =
               (case menuRef of None \<Rightarrow> False | Some el \<Rightarrow> \<not> contains el target)
         in if isClickOutsideMessage \<and> isClickOutsideMenu
            then s\<lparr>showMenu := False, showDeleteOptions := False\<rparr>
            else s)
      else s)"

text \<open>
  \<^verbatim>\<open>navigator.clipboard\<close> is undefined outside a secure context; \<^verbatim>\<open>handleCopy\<close> then
  throws before it reaches \<^verbatim>\<open>setShowMenu\<close>.
\<close>

definition handleCopy :: "bool \<Rightarrow> props \<Rightarrow> world \<Rightarrow> world" where
  "handleCopy clipboardAvailable p w =
     (if clipboardAvailable
      then set_ui (\<lambda>s. s\<lparr>showMenu := False\<rparr>) (emit (ClipboardWrite (text' p)) w)
      else w)"

text \<open>
  \<^verbatim>\<open>handleShare\<close> up to its \<^verbatim>\<open>await\<close>, and from there on; \<open>hasShare\<close> tells whether
  \<^verbatim>\<open>navigator.share\<close> exists, \<open>ok\<close> whether the awaited promise was fulfilled.
\<close>

definition handleShare_begin :: "bool \<Rightarrow> props \<Rightarrow> world \<Rightarrow> world" where
  "handleShare_begin hasShare p w =
     (if hasShare
      then emit (ShareCall (text' p) (''Messaggio da '' @ senderName p)
                   (if truthy_string (mediaUrl p) then mediaUrl p else None)) w
      else emit (ClipboardWrite (text' p)) w)"

definition handleShare_resume :: "bool \<Rightarrow> bool \<Rightarrow> world \<Rightarrow> world" where
  "handleShare_resume hasShare ok w =
     (if ok
      then set_ui (\<lambda>s. s\<lparr>showMenu := False\<rparr>)
             (if hasShare then w else emit (Alert ''Messaggio copiato negli appunti!'') w)
      else emit (ConsoleError ''Errore durante la condivisione:'') w)"

text \<open>The \<^verbatim>\<open>onClick\<close> of the "Elimina" button.\<close>

definition eliminaClick :: "component \<Rightarrow> component" where
  "eliminaClick s = (s\<lparr>showDeleteOptions := True\<rparr>)\<lparr>showMenu := False\<rparr>"

definition handleMediaLoad :: "component \<Rightarrow> component" where
  "handleMediaLoad s = s\<lparr>isMediaLoading := False\<rparr>"

definition toggleAudio :: "bool \<Rightarrow> world \<Rightarrow> world" where
  "toggleAudio audioRef w =
     (if \<not> audioRef then w
      else set_ui (\<lambda>s. s\<lparr>isPlaying := \<not> isPlaying s\<rparr>)
             (emit (if isPlaying (ui w) then AudioPause else AudioPlay) w))"

subsection \<open>handleDelete\<close>

text \<open>
  How the promise that \<^verbatim>\<open>handleDelete\<close> returns ends: fulfilled, still waiting for
  \<^verbatim>\<open>onDelete\<close>, or rejected with the TypeError that the \<^verbatim>\<open>catch\<close> block itself raised.
\<close>

datatype completion = Returned | Suspended | ThrewTypeError

definition delete_fallback :: string where
  "delete_fallback = ''Errore durante l'eliminazione del messaggio''"

text \<open>The \<^verbatim>\<open>try\<close> block up to the \<^verbatim>\<open>await\<close>.\<close>

definition handleDelete_begin :: "props \<Rightarrow> bool \<Rightarrow> world \<Rightarrow> world" where
  "handleDelete_begin p deleteForEveryone w =
     emit (OnDeleteCall (id' p) deleteForEveryone) (set_ui (\<lambda>s. s\<lparr>isDeleting := True\<rparr>) w)"

definition catch_block :: "reason \<Rightarrow> world \<Rightarrow> completion \<times> world" where
  "catch_block error w =
     (let w1 = emit (ConsoleError ''Error deleting message:'') w
      in case error of
           Nullish \<Rightarrow> (ThrewTypeError, w1)
         | HasMessage message \<Rightarrow> (Returned, emit (Alert (or_string message delete_fallback)) w1))"

definition finally_block :: "world \<Rightarrow> world" where
  "finally_block w = set_ui (\<lambda>s. s\<lparr>isDeleting := False\<rparr>) w"

text \<open>The rest of \<^verbatim>\<open>handleDelete\<close>, once the promise of \<^verbatim>\<open>onDelete\<close> has settled.\<close>

fun handleDelete_resume :: "outcome \<Rightarrow> world \<Rightarrow> completion \<times> world" where
  "handleDelete_resume Fulfilled w =
     (Returned,
      finally_block
        (set_ui (\<lambda>s. s\<lparr>showMenu := False\<rparr>) (set_ui (\<lambda>s. s\<lparr>showDeleteOptions := False\<rparr>) w)))"
| "handleDelete_resume (Rejected error) w =
     (case catch_block error w of (c, w') \<Rightarrow> (c, finally_block w'))"

definition handleDelete :: "props \<Rightarrow> bool \<Rightarrow> world \<Rightarrow> completion \<times> world" where
  "handleDelete p deleteForEveryone w =
     (case onDelete p of
        None \<Rightarrow> (Returned, w)
      | Some f \<Rightarrow>
          (let w1 = handleDelete_begin p deleteForEveryone w
           in case f (id' p) deleteForEveryone of
                None \<Rightarrow> (Suspended, w1)
              | Some settled \<Rightarrow> handleDelete_resume settled w1))"

subsection \<open>What is rendered\<close>

text \<open>
  Of the markup only what the handlers and the menus depend on is kept: which menu is
  mounted, the buttons of the delete-options menu, and the media element with its load
  handler. Both branches of the markup (own and received messages) have the same menus.
\<close>

datatype event =
    MessageClick DOMRect real
  | CopyClick bool
  | ShareClick bool
  | ShareSettled bool bool
  | EliminaClick
  | DeleteClick bool
  | DeleteSettled outcome
  | DocumentClick element element node
  | MediaLoad
  | ToggleAudio
  | AudioEnded
  | FullImageClick

record button =
  label :: string
  disabled :: bool
  onClick :: event

definition canDeleteForEveryone :: "props \<Rightarrow> bool option" where
  "canDeleteForEveryone p = or_bool (or_bool (Some (isMe p)) (isAdmin p)) (isGroupCreator p)"

text \<open>The first menu (copy, share, delete), the one \<^verbatim>\<open>menuRef\<close> is attached to.\<close>

definition menuRendered :: "props \<Rightarrow> component \<Rightarrow> bool" where
  "menuRendered p s =
     (showMenu s \<and> \<not> showDeleteOptions s \<and> (text' p \<noteq> [] \<or> truthy_string (mediaUrl p)))"

definition menuRef_current :: "props \<Rightarrow> component \<Rightarrow> element \<Rightarrow> element option" where
  "menuRef_current p s menuEl = (if menuRendered p s then Some menuEl else None)"

text \<open>The buttons of the delete-options menu, and the menu, mounted while
  \<^verbatim>\<open>showDeleteOptions\<close> holds.\<close>

definition deleteOptionsButtons :: "props \<Rightarrow> component \<Rightarrow> button list" where
  "deleteOptionsButtons p s =
     [\<lparr>label = (if isDeleting s then ''Eliminazione...'' else ''Elimina per me''),
       disabled = isDeleting s, onClick = DeleteClick False\<rparr>] @
     (if truthy_bool (canDeleteForEveryone p)
      then [\<lparr>label = (if isDeleting s then ''Eliminazione...'' else ''Elimina per tutti''),
             disabled = isDeleting s, onClick = DeleteClick True\<rparr>]
      else [])"

definition deleteOptionsMenu :: "props \<Rightarrow> component \<Rightarrow> button list option" where
  "deleteOptionsMenu p s =
     (if showDeleteOptions s then Some (deleteOptionsButtons p s) else None)"

text \<open>A disabled button, or one that is not rendered, does not run its handler.\<close>

definition clickable :: "props \<Rightarrow> component \<Rightarrow> event \<Rightarrow> bool" where
  "clickable p s ev =
     (case deleteOptionsMenu p s of
        None \<Rightarrow> False
      | Some bs \<Rightarrow> list_ex (\<lambda>b. onClick b = ev \<and> \<not> disabled b) bs)"

datatype media_element = Img | VideoEl | AudioEl | DownloadLink

record media_view =
  element :: media_element
  onLoad :: "event option"
  loadingIndicator :: bool

definition renderMedia :: "props \<Rightarrow> component \<Rightarrow> media_view option" where
  "renderMedia p s =
     (if \<not> truthy_string (mediaUrl p) then None
      else case mediaType p of
             None \<Rightarrow> None
           | Some Photo \<Rightarrow>
               Some \<lparr>element = Img, onLoad = Some MediaLoad, loadingIndicator = isMediaLoading s\<rparr>
           | Some Video \<Rightarrow>
               Some \<lparr>element = VideoEl, onLoad = Some MediaLoad, loadingIndicator = isMediaLoading s\<rparr>
           | Some Audio \<Rightarrow>
               Some \<lparr>element = AudioEl, onLoad = Some MediaLoad, loadingIndicator = isMediaLoading s\<rparr>
           | Some Document \<Rightarrow>
               Some \<lparr>element = DownloadLink, onLoad = None, loadingIndicator = False\<rparr>)"

definition audioRef_current :: "props \<Rightarrow> component \<Rightarrow> bool" where
  "audioRef_current p s =
     (case renderMedia p s of None \<Rightarrow> False | Some v \<Rightarrow> element v = AudioEl)"

subsection \<open>Events\<close>

text \<open>
  One step of the component: the handler of the event, on the state the last render
  left. The message element is mounted as long as the component is, so its reference
  is never empty when an event arrives; the menu reference follows the render.
\<close>

fun step :: "props \<Rightarrow> event \<Rightarrow> world \<Rightarrow> world" where
  "step p (MessageClick messageRect innerHeight) w =
     set_ui (handleMessageClick (Some messageRect) innerHeight) w"
| "step p (CopyClick clipboardAvailable) w = handleCopy clipboardAvailable p w"
| "step p (ShareClick hasShare) w = handleShare_begin hasShare p w"
| "step p (ShareSettled hasShare ok) w = handleShare_resume hasShare ok w"
| "step p EliminaClick w = set_ui eliminaClick w"
| "step p (DeleteClick deleteForEveryone) w =
     (if clickable p (ui w) (DeleteClick deleteForEveryone)
      then (case onDelete p of
              None \<Rightarrow> w
            | Some f \<Rightarrow> handleDelete_begin p deleteForEveryone w)
      else w)"
| "step p (DeleteSettled settled) w = snd (handleDelete_resume settled w)"
| "step p (DocumentClick messageEl menuEl target) w =
     set_ui (\<lambda>s. handleClickOutside (Some messageEl) (menuRef_current p s menuEl) target s) w"
| "step p MediaLoad w = set_ui handleMediaLoad w"
| "step p ToggleAudio w = toggleAudio (audioRef_current p (ui w)) w"
| "step p AudioEnded w = set_ui (\<lambda>s. s\<lparr>isPlaying := False\<rparr>) w"
| "step p FullImageClick w = set_ui (\<lambda>s. s\<lparr>showFullImage := True\<rparr>) w"

definition run :: "props \<Rightarrow> event list \<Rightarrow> world \<Rightarrow> world" where
  "run p evs w = fold (step p) evs w"

definition is_settle :: "event \<Rightarrow> bool" where
  "is_settle ev = (case ev of DeleteSettled _ \<Rightarrow> True | _ \<Rightarrow> False)"

definition menus_exclusive :: "component \<Rightarrow> bool" where
  "menus_exclusive s = (\<not> (showMenu s \<and> showDeleteOptions s))"

definition is_call :: "effect \<Rightarrow> bool" where
  "is_call e = (case e of OnDeleteCall _ _ \<Rightarrow> True | _ \<Rightarrow> False)"

definition alerts :: "world \<Rightarrow> string list" where
  "alerts w = concat (map (\<lambda>e. case e of Alert t \<Rightarrow> [t] | _ \<Rightarrow> []) (effects w))"

text \<open>Sample properties for the concrete instances below.\<close>

definition sample_props :: "onDelete_fn option \<Rightarrow> props" where
  "sample_props cb =
     \<lparr>id' = ''m1'', text' = ''ciao'', isMe = False, senderName = ''Ada'', mediaUrl = None,
      mediaType = None, fileName = None, onDelete = cb, isGroupChat = None,
      isAdmin = None, isGroupCreator = None\<rparr>"

text \<open>Callbacks a parent may supply.\<close>

definition resolve_ok :: onDelete_fn where
  "resolve_ok messageId deleteForEveryone = Some Fulfilled"

definition reject_boom :: onDelete_fn where
  "reject_boom messageId deleteForEveryone = Some (Rejected (HasMessage (Some ''boom'')))"

definition reject_empty :: onDelete_fn where
  "reject_empty messageId deleteForEveryone = Some (Rejected (HasMessage (Some [])))"

definition reject_nullish :: onDelete_fn where
  "reject_nullish messageId deleteForEveryone = Some (Rejected Nullish)"

definition never_settles :: onDelete_fn where
  "never_settles messageId deleteForEveryone = None"

text \<open>Properties of a photo message, and of a message seen by a group admin.\<close>

definition photo_props :: props where
  "photo_props =
     (sample_props None)\<lparr>mediaUrl := Some ''https://x/p.png'', mediaType := Some Photo\<rparr>"

definition admin_props :: props where
  "admin_props = (sample_props (Some resolve_ok))\<lparr>isAdmin := Some True\<rparr>"

text \<open>The state with the delete-options menu open.\<close>

definition delete_options_open :: world where
  "delete_options_open = \<lparr>ui = initial_component\<lparr>showDeleteOptions := True\<rparr>, effects = []\<rparr>"

section \<open>Properties\<close>

lemmas world_defs = set_ui_def emit_def

lemmas delete_defs = handleDelete_def handleDelete_begin_def catch_block_def finally_block_def

lemmas sample_defs = sample_props_def initial_world_def initial_component_def

subsection \<open>Errors of the deletion callback\<close>

text \<open>
  Claim C1, as stated, fails where the rejection carries an empty message: the
  alert shows the fallback text, not the (empty) message, since \<^verbatim>\<open>||\<close> takes its
  right operand for every falsy left operand.
\<close>

theorem handleDelete_empty_message_counterexample:
  "alerts (snd (handleDelete (sample_props (Some reject_empty)) False initial_world))
     = [delete_fallback] \<and>
   alerts (snd (handleDelete (sample_props (Some reject_empty)) False initial_world))
     \<noteq> ['''']"
  by (simp add: delete_defs world_defs sample_defs reject_empty_def alerts_def or_string_def
      delete_fallback_def)

text \<open>
  A rejection with \<^verbatim>\<open>null\<close> or \<^verbatim>\<open>undefined\<close> makes the \<^verbatim>\<open>catch\<close> block itself throw at
  \<^verbatim>\<open>error.message\<close>: nothing is alerted and the promise of \<^verbatim>\<open>handleDelete\<close> is
  rejected.
\<close>

lemma handleDelete_nullish_rejection:
  assumes "onDelete p = Some f" and "f (id' p) d = Some (Rejected Nullish)"
  shows "fst (handleDelete p d w) = ThrewTypeError \<and>
         alerts (snd (handleDelete p d w)) = alerts w"
  using assms by (simp add: delete_defs world_defs alerts_def)

text \<open>
  Claim C1, amended. Whenever \<^verbatim>\<open>onDelete\<close> rejects with a value other than
  \<^verbatim>\<open>null\<close> and \<^verbatim>\<open>undefined\<close>, \<^verbatim>\<open>handleDelete\<close> catches it: it logs to the console,
  raises exactly one alert, showing the error's message when that is a non-empty string
  and the fallback text when the message is absent or empty, and its own promise is
  fulfilled, so nothing reaches the caller.
\<close>

theorem handleDelete_alerts_rejection:
  assumes "onDelete p = Some f" and "f (id' p) d = Some (Rejected (HasMessage m))"
  shows "fst (handleDelete p d w) = Returned \<and>
         effects (snd (handleDelete p d w)) =
           effects w @ [OnDeleteCall (id' p) d, ConsoleError ''Error deleting message:'',
                        Alert (case m of None \<Rightarrow> delete_fallback
                               | Some t \<Rightarrow> if t = [] then delete_fallback else t)]"
  using assms by (simp add: delete_defs world_defs or_string_def split: option.splits)

theorem handleDelete_alerts_rejection_witness:
  "fst (handleDelete (sample_props (Some reject_boom)) True initial_world) = Returned \<and>
   effects (snd (handleDelete (sample_props (Some reject_boom)) True initial_world)) =
     [OnDeleteCall ''m1'' True, ConsoleError ''Error deleting message:'', Alert ''boom'']"
  using handleDelete_alerts_rejection
    [of "sample_props (Some reject_boom)" reject_boom True "Some ''boom''" initial_world]
  by (simp add: sample_defs reject_boom_def)

subsection \<open>The position of the menu\<close>

lemma pow2_powi: "pow2 k = 2 powi k"
  by (simp add: pow2_def power_int_def inverse_eq_divide power_one_over)

lemma pow2_pos: "0 < pow2 k"
  by (simp add: pow2_powi)

lemma pow2_mono: "a \<le> b \<Longrightarrow> pow2 a \<le> pow2 b"
  by (simp add: pow2_powi power_int_increasing)

lemma pow2_numeral_facts:
  "pow2 (- 45) = 1 / 2 ^ 45" "pow2 (- 46) = 1 / 2 ^ 46" "pow2 9 = 512"
  by (simp_all add: pow2_def)

text \<open>Rounding to the nearest integer moves a number by at most one half.\<close>

lemma round_half_even_bounds:
  "y - 1 / 2 \<le> of_int (round_half_even y) \<and> of_int (round_half_even y) \<le> y + 1 / 2"
proof -
  define f where "f = \<lfloor>y\<rfloor>"
  have f: "of_int f \<le> y" "y < of_int f + 1"
    unfolding f_def by linarith+
  have r: "round_half_even y =
      (if y - of_int f < 1 / 2 then f else if 1 / 2 < y - of_int f then f + 1
       else if even f then f else f + 1)"
    by (simp add: round_half_even_def Let_def f_def)
  from f show ?thesis
    unfolding r
    by (cases "y - of_int f < 1 / 2"; cases "1 / 2 < y - of_int f"; cases "even f") simp_all
qed

text \<open>Below an even integer \<open>N\<close> the tie at \<open>N - 1 / 2\<close> goes up to \<open>N\<close>.\<close>

lemma round_half_even_less_even_iff:
  assumes "even N"
  shows "round_half_even y < N \<longleftrightarrow> y < of_int N - 1 / 2"
proof -
  define f where "f = \<lfloor>y\<rfloor>"
  have f: "of_int f \<le> y" "y < of_int f + 1"
    unfolding f_def by linarith+
  have r: "round_half_even y =
      (if y - of_int f < 1 / 2 then f else if 1 / 2 < y - of_int f then f + 1
       else if even f then f else f + 1)"
    by (simp add: round_half_even_def Let_def f_def)
  show ?thesis
  proof
    assume a: "round_half_even y < N"
    show "y < of_int N - 1 / 2"
    proof (rule ccontr)
      assume "\<not> y < of_int N - 1 / 2"
      then have b: "of_int N - 1 / 2 \<le> y" by simp
      with f have "of_int N - 1 < (of_int f + 1 :: real)" by linarith
      then have "N - 1 < f + 1" by linarith
      then have "N - 1 \<le> f" by simp
      then consider "N \<le> f" | "f = N - 1" by linarith
      then show False
      proof cases
        case 1
        with a r show False by (auto split: if_splits)
      next
        case 2
        with assms have "odd f" by simp
        moreover from 2 b have "1 / 2 \<le> y - of_int f" by simp
        ultimately have "round_half_even y = f + 1"
          using r by auto
        with 2 a show False by simp
      qed
    qed
  next
    assume a: "y < of_int N - 1 / 2"
    with f have "of_int f < (of_int N :: real)" by linarith
    then have fn: "f \<le> N - 1" by linarith
    show "round_half_even y < N"
    proof (cases "y - of_int f < 1 / 2")
      case True
      with r fn show ?thesis by simp
    next
      case False
      with a have "of_int f + 1 < (of_int N :: real)" by linarith
      then have "f + 1 < N" by linarith
      with r show ?thesis by (auto split: if_splits)
    qed
  qed
qed

lemma js_less_round_double:
  assumes "x \<noteq> 0"
  shows "js_less (round_double x) b \<longleftrightarrow>
     (let ulp = pow2 (max (exponent x) (- 1022) - 52);
          r = of_int (round_half_even (x / ulp)) * ulp
      in if pow2 1024 \<le> \<bar>r\<bar> then \<not> 0 < x else r < b)"
  using assms by (simp add: round_double_def Let_def)

lemma exponent_le_6:
  assumes "0 < x" and "x < 128"
  shows "exponent x \<le> 6"
proof (cases "1 \<le> x")
  case True
  from assms have "\<lfloor>x\<rfloor> < 2 ^ nat 7" by (simp add: floor_less_iff)
  then have "bitlen \<lfloor>x\<rfloor> \<le> 7" by (simp add: bitlen_le_iff_power)
  with True assms show ?thesis by (simp add: exponent_def)
next
  case False
  have "0 \<le> bitlen (\<lceil>1 / \<bar>x\<bar>\<rceil> - 1)" by (rule bitlen_nonneg)
  with False assms show ?thesis by (simp add: exponent_def)
qed

lemma exponent_eq_7:
  assumes "128 \<le> x" and "x < 256"
  shows "exponent x = 7"
proof -
  from assms have "\<lfloor>x\<rfloor> < 2 ^ nat 8" by (simp add: floor_less_iff)
  then have a: "bitlen \<lfloor>x\<rfloor> \<le> 8" by (simp add: bitlen_le_iff_power)
  from assms have "2 ^ (nat 8 - 1) \<le> \<lfloor>x\<rfloor>" by (simp add: le_floor_iff)
  then have b: "8 \<le> bitlen \<lfloor>x\<rfloor>" by (simp add: bitlen_ge_iff_power)
  from a b assms show ?thesis by (simp add: exponent_def)
qed

lemma exponent_ge_8:
  assumes "256 \<le> x"
  shows "8 \<le> exponent x"
proof -
  from assms have "2 ^ (nat 9 - 1) \<le> \<lfloor>x\<rfloor>" by (simp add: le_floor_iff)
  then have "9 \<le> bitlen \<lfloor>x\<rfloor>" by (simp add: bitlen_ge_iff_power)
  with assms show ?thesis by (simp add: exponent_def)
qed

lemma pow2_exponent_le:
  assumes "1 \<le> x"
  shows "pow2 (exponent x) \<le> x"
proof -
  from assms have p: "0 < \<lfloor>x\<rfloor>" by simp
  then have "1 \<le> bitlen \<lfloor>x\<rfloor>"
    using bitlen_eq_zero_iff [of "\<lfloor>x\<rfloor>"] bitlen_nonneg [of "\<lfloor>x\<rfloor>"] by linarith
  then have "pow2 (exponent x) = 2 ^ nat (bitlen \<lfloor>x\<rfloor> - 1)"
    using assms by (simp add: exponent_def pow2_def)
  also have "\<dots> = of_int (2 ^ nat (bitlen \<lfloor>x\<rfloor> - 1))" by simp
  also have "\<dots> \<le> of_int \<lfloor>x\<rfloor>"
    using bitlen_bounds [OF p] by (intro of_int_le_iff [THEN iffD2]) simp
  also have "\<dots> \<le> x" by simp
  finally show ?thesis .
qed

lemma exponent_eqI:
  assumes "0 \<le> e" and "2 ^ nat e \<le> x" and "x < 2 ^ nat (e + 1)"
  shows "exponent x = e"
proof -
  have "(1 :: real) \<le> 2 ^ nat e" by simp
  with assms have x: "1 \<le> x" by linarith
  from assms have "\<lfloor>x\<rfloor> < 2 ^ nat (e + 1)" by (simp add: floor_less_iff)
  with assms have a: "bitlen \<lfloor>x\<rfloor> \<le> e + 1" by (simp add: bitlen_le_iff_power)
  from assms have "2 ^ nat e \<le> \<lfloor>x\<rfloor>" by (simp add: le_floor_iff)
  with assms have "2 ^ (nat (e + 1) - 1) \<le> \<lfloor>x\<rfloor>" by (simp add: nat_add_distrib)
  then have b: "e + 1 \<le> bitlen \<lfloor>x\<rfloor>" by (simp add: bitlen_ge_iff_power)
  from a b x show ?thesis by (simp add: exponent_def)
qed

text \<open>
  Two roundings as every double-precision unit performs them: \<open>2 ^ 53 + 1\<close> and
  \<open>2 ^ 53 + 3\<close> lie midway between two doubles and go to the one with the even
  significand, and one tenth becomes \<open>3602879701896397 / 2 ^ 55\<close>.
\<close>

lemma round_double_tie_to_even:
  "round_double 9007199254740993 = Finite 9007199254740992 \<and>
   round_double 9007199254740995 = Finite 9007199254740996"
proof -
  have "exponent 9007199254740993 = 53" "exponent 9007199254740995 = 53"
    by (rule exponent_eqI; simp)+
  then show ?thesis
    by (simp add: round_double_def Let_def pow2_def round_half_even_def)
qed

lemma round_double_tenth: "round_double (1 / 10) = Finite (3602879701896397 / 2 ^ 55)"
proof -
  have "\<lceil>1 / \<bar>1 / 10 :: real\<bar>\<rceil> - 1 = 9" by simp
  moreover have "bitlen 9 = 4"
    using bitlen_le_iff_power [of 9 4] bitlen_ge_iff_power [of 4 9] by simp
  ultimately have "exponent (1 / 10) = - 4" by (simp add: exponent_def)
  then show ?thesis
    by (simp add: round_double_def Let_def pow2_def round_half_even_def)
qed

text \<open>
  The rounded value of \<open>x\<close> is below 200 exactly when \<open>x\<close> is below the midpoint of 200
  and the double before it, \<open>200 - 2 ^ -46\<close>: the midpoint itself is a tie and goes to
  200, whose significand is even.
\<close>

lemma js_less_round_double_200:
  "js_less (round_double x) 200 \<longleftrightarrow> x < 200 - 1 / 2 ^ 46"
proof -
  define ulp where "ulp = pow2 (max (exponent x) (- 1022) - 52)"
  define n where "n = round_half_even (x / ulp)"
  define r where "r = of_int n * ulp"
  have ulp: "0 < ulp" by (simp add: ulp_def pow2_pos)
  have big: "512 \<le> pow2 1024"
    using pow2_mono [of 9 1024] by (simp add: pow2_numeral_facts)
  have n: "x / ulp - 1 / 2 \<le> of_int n" "of_int n \<le> x / ulp + 1 / 2"
    using round_half_even_bounds [of "x / ulp"] by (simp_all add: n_def)
  from n(1) ulp have "(x / ulp - 1 / 2) * ulp \<le> r"
    unfolding r_def by (intro mult_right_mono) simp_all
  with ulp have lo: "x - ulp / 2 \<le> r" by (simp add: left_diff_distrib)
  from n(2) ulp have "r \<le> (x / ulp + 1 / 2) * ulp"
    unfolding r_def by (intro mult_right_mono) simp_all
  with ulp have hi: "r \<le> x + ulp / 2" by (simp add: distrib_right)
  have unfold: "js_less (round_double x) 200 \<longleftrightarrow>
      (if pow2 1024 \<le> \<bar>r\<bar> then \<not> 0 < x else r < 200)" if "x \<noteq> 0"
    using that by (simp add: js_less_round_double Let_def r_def n_def ulp_def)
  consider "x = 0" | "x < 0" | "0 < x" "x < 128" | "128 \<le> x" "x < 256" | "256 \<le> x"
    by linarith
  then show ?thesis
  proof cases
    case 1
    then show ?thesis by (simp add: round_double_def)
  next
    case 2
    with hi ulp have "r < ulp / 2" by linarith
    then have "of_int n * ulp < (1 / 2) * ulp" by (simp add: r_def)
    with ulp have "of_int n < (1 / 2 :: real)" by (simp only: mult_less_cancel_right_pos)
    then have "n \<le> 0" by linarith
    with ulp have "r \<le> 0" by (simp add: r_def mult_nonpos_nonneg)
    with 2 show ?thesis by (simp add: unfold)
  next
    case 3
    then have "max (exponent x) (- 1022) - 52 \<le> - 46"
      using exponent_le_6 [of x] by simp
    then have u: "ulp \<le> 1 / 2 ^ 46"
      using pow2_mono [of "max (exponent x) (- 1022) - 52" "- 46"]
      by (simp add: ulp_def pow2_numeral_facts)
    have "(1 :: real) / 2 ^ 46 \<le> 1" by simp
    with u have "ulp \<le> 1" by linarith
    with lo hi 3 ulp have "\<bar>r\<bar> < 129" by (simp add: abs_less_iff)
    with big 3 show ?thesis by (simp add: unfold)
  next
    case 4
    then have u: "ulp = 1 / 2 ^ 45"
      by (simp add: ulp_def exponent_eq_7 pow2_numeral_facts)
    with lo hi 4 have "\<bar>r\<bar> < 257" by (simp add: abs_less_iff)
    with big 4 have "js_less (round_double x) 200 \<longleftrightarrow> r < 200"
      by (simp add: unfold)
    also have "\<dots> \<longleftrightarrow> of_int n < (of_int (200 * 2 ^ 45) :: real)"
      by (simp add: r_def u field_simps)
    also have "\<dots> \<longleftrightarrow> n < 200 * 2 ^ 45"
      by (simp only: of_int_less_iff)
    also have "\<dots> \<longleftrightarrow> x / ulp < of_int (200 * 2 ^ 45) - 1 / 2"
      unfolding n_def by (rule round_half_even_less_even_iff) simp
    also have "\<dots> \<longleftrightarrow> x < 200 - 1 / 2 ^ 46"
      by (simp add: u field_simps)
    finally show ?thesis .
  next
    case 5
    then have e: "8 \<le> exponent x" by (rule exponent_ge_8)
    then have "ulp = pow2 (exponent x - 52)" by (simp add: ulp_def max_def)
    also have "\<dots> \<le> pow2 (exponent x - 2)" by (rule pow2_mono) simp
    also have "\<dots> = pow2 (exponent x) / 4"
      by (simp add: pow2_powi power_int_diff)
    also from 5 have "\<dots> \<le> x / 4"
      using pow2_exponent_le [of x] by simp
    finally have "ulp \<le> x / 4" .
    with lo 5 have "200 < r" by linarith
    with 5 show ?thesis by (simp add: unfold)
  qed
qed

lemma js_less_minus_200: "js_less (js_minus a b) 200 \<longleftrightarrow> a - b < 200 - 1 / 2 ^ 46"
  by (simp add: js_minus_def js_less_round_double_200)

text \<open>The double nearest to \<open>250 - (50 + 2 ^ -47)\<close> is 200.\<close>

lemma js_minus_rounds_up_to_200: "js_minus 250 (50 + 1 / 2 ^ 47) = Finite 200"
  by (simp add: js_minus_def round_double_def Let_def exponent_eq_7 pow2_def
      round_half_even_def)

text \<open>
  Claim C2, as stated, fails where the subtraction rounds. With an inner height of 250
  and the bottom of the message at \<open>50 + 2 ^ -47\<close>, both doubles, the inner height minus
  the bottom is less than 200, yet the difference the code computes is the double 200,
  which is not less than 200, and the position is set to \<^verbatim>\<open>'bottom'\<close>.
\<close>

theorem calculateMenuPosition_rounding_counterexample:
  "250 - (50 + 1 / 2 ^ 47) < (200 :: real) \<and>
   menuPosition (calculateMenuPosition (Some \<lparr>bottom = 50 + 1 / 2 ^ 47\<rparr>) 250
     initial_component) = Bottom"
proof -
  have "\<not> js_less (js_minus 250 (50 + 1 / 2 ^ 47)) 200"
    unfolding js_minus_rounds_up_to_200 by simp
  then show ?thesis
    by (simp add: calculateMenuPosition_def)
qed

text \<open>
  Claim C2, amended. \<^verbatim>\<open>calculateMenuPosition\<close> determines the position by the one
  comparison \<^verbatim>\<open>spaceBelow < 200\<close>: with the message element attached it sets the position
  to \<^verbatim>\<open>'top'\<close> exactly when the space below as the code computes it, the inner height
  minus the bottom of the message rounded to the nearest double, is less than 200, and
  to \<^verbatim>\<open>'bottom'\<close> otherwise, and it changes nothing else. In exact terms the position is
  \<^verbatim>\<open>'top'\<close> exactly when the inner height minus the bottom is less than
  \<open>200 - 2 ^ -46\<close>.
\<close>

theorem calculateMenuPosition_top_iff:
  "calculateMenuPosition (Some messageRect) innerHeight s =
     s\<lparr>menuPosition :=
         (if js_less (js_minus innerHeight (bottom messageRect)) 200 then Top else Bottom)\<rparr> \<and>
   (menuPosition (calculateMenuPosition (Some messageRect) innerHeight s) = Top
      \<longleftrightarrow> js_less (js_minus innerHeight (bottom messageRect)) 200) \<and>
   (menuPosition (calculateMenuPosition (Some messageRect) innerHeight s) = Bottom
      \<longleftrightarrow> \<not> js_less (js_minus innerHeight (bottom messageRect)) 200) \<and>
   (js_less (js_minus innerHeight (bottom messageRect)) 200
      \<longleftrightarrow> innerHeight - bottom messageRect < 200 - 1 / 2 ^ 46)"
  by (simp add: calculateMenuPosition_def js_less_minus_200)

theorem calculateMenuPosition_top_iff_witness:
  "menuPosition (calculateMenuPosition (Some \<lparr>bottom = 650\<rparr>) 800 initial_component) = Top \<and>
   menuPosition (calculateMenuPosition (Some \<lparr>bottom = 600\<rparr>) 800 initial_component) = Bottom"
proof -
  note A = calculateMenuPosition_top_iff [of "\<lparr>bottom = 650\<rparr>" 800 initial_component]
  note B = calculateMenuPosition_top_iff [of "\<lparr>bottom = 600\<rparr>" 800 initial_component]
  have a: "(800 :: real) - bottom \<lparr>bottom = 650\<rparr> < 200 - 1 / 2 ^ 46"
    by simp
  have b: "\<not> (800 :: real) - bottom \<lparr>bottom = 600\<rparr> < 200 - 1 / 2 ^ 46"
    by simp
  from A a have 1: "menuPosition (calculateMenuPosition (Some \<lparr>bottom = 650\<rparr>) 800
      initial_component) = Top"
    by blast
  from B b have 2: "menuPosition (calculateMenuPosition (Some \<lparr>bottom = 600\<rparr>) 800
      initial_component) = Bottom"
    by blast
  from 1 2 show ?thesis by blast
qed

subsection \<open>The delete flow\<close>

lemma resume_calls:
  "filter is_call (effects (snd (handleDelete_resume settled w))) = filter is_call (effects w)"
proof (cases settled)
  case Fulfilled
  then show ?thesis by (simp add: finally_block_def world_defs)
next
  case (Rejected r)
  then show ?thesis
    by (cases r) (simp_all add: catch_block_def finally_block_def world_defs is_call_def)
qed

lemma begin_calls:
  "filter is_call (effects (handleDelete_begin p d w)) =
     filter is_call (effects w) @ [OnDeleteCall (id' p) d]"
  by (simp add: handleDelete_begin_def world_defs is_call_def)

lemma handleDelete_calls_once:
  assumes "onDelete p = Some f"
  shows "filter is_call (effects (snd (handleDelete p d w))) =
           filter is_call (effects w) @ [OnDeleteCall (id' p) d]"
proof (cases "f (id' p) d")
  case None
  with assms show ?thesis by (simp add: handleDelete_def begin_calls)
next
  case (Some settled)
  with assms show ?thesis by (simp add: handleDelete_def resume_calls begin_calls)
qed

lemma handleDelete_reads_one_result:
  assumes "onDelete p = Some f" and "g (id' p) d = f (id' p) d"
  shows "handleDelete (p\<lparr>onDelete := Some g\<rparr>) d w = handleDelete p d w"
  using assms by (simp add: handleDelete_def handleDelete_begin_def)

text \<open>
  Claim C3. When an \<^verbatim>\<open>onDelete\<close> callback is provided, \<^verbatim>\<open>handleDelete\<close> calls it
  exactly once, with the message id of the properties and the flag it was given; and
  the callback's result at these two arguments is all of the callback that
  \<^verbatim>\<open>handleDelete\<close> depends on.
\<close>

theorem handleDelete_pass_through:
  assumes "onDelete p = Some f"
  shows "filter is_call (effects (snd (handleDelete p d w))) =
           filter is_call (effects w) @ [OnDeleteCall (id' p) d] \<and>
         (\<forall>g. g (id' p) d = f (id' p) d \<longrightarrow>
              handleDelete (p\<lparr>onDelete := Some g\<rparr>) d w = handleDelete p d w)"
  using assms handleDelete_calls_once handleDelete_reads_one_result by blast

theorem handleDelete_pass_through_witness:
  "filter is_call
     (effects (snd (handleDelete (sample_props (Some resolve_ok)) True initial_world))) =
     [OnDeleteCall ''m1'' True]"
proof -
  have h: "onDelete (sample_props (Some resolve_ok)) = Some resolve_ok"
    by (simp add: sample_props_def)
  have i: "id' (sample_props (Some resolve_ok)) = ''m1''"
    by (simp add: sample_props_def)
  have e: "effects initial_world = []"
    by (simp add: initial_world_def)
  from handleDelete_pass_through [OF h, of True initial_world] show ?thesis
    unfolding i e by simp
qed

subsection \<open>Disabled buttons while a deletion is pending\<close>

lemmas handler_defs = handleMessageClick_def calculateMenuPosition_def handleCopy_def
  handleShare_begin_def handleShare_resume_def eliminaClick_def handleDelete_begin_def
  handleClickOutside_def handleMediaLoad_def toggleAudio_def

lemma resume_clears_isDeleting: "\<not> isDeleting (ui (snd (handleDelete_resume settled w)))"
proof (cases settled)
  case Fulfilled
  then show ?thesis by (simp add: finally_block_def world_defs)
next
  case (Rejected r)
  then show ?thesis
    by (cases r) (simp_all add: catch_block_def finally_block_def world_defs)
qed

lemma step_keeps_isDeleting:
  assumes "isDeleting (ui w)" and "\<not> is_settle ev"
  shows "isDeleting (ui (step p ev w))"
  using assms
  by (cases ev) (simp_all add: world_defs is_settle_def handler_defs Let_def split: option.splits)

lemma run_keeps_isDeleting:
  assumes "isDeleting (ui w)" and "\<forall>ev\<in>set evs. \<not> is_settle ev"
  shows "isDeleting (ui (run p evs w))"
  using assms unfolding run_def
proof (induction evs arbitrary: w)
  case Nil
  then show ?case by simp
next
  case (Cons ev evs)
  then show ?case by (simp add: step_keeps_isDeleting)
qed

lemma buttons_disabled_eq_isDeleting:
  assumes "b \<in> set (deleteOptionsButtons p s)"
  shows "disabled b = isDeleting s"
  using assms
  by (cases "truthy_bool (canDeleteForEveryone p)") (auto simp: deleteOptionsButtons_def)

lemma delete_click_sets_isDeleting:
  assumes "onDelete p = Some f" and "clickable p (ui w) (DeleteClick d)"
  shows "isDeleting (ui (step p (DeleteClick d) w))"
  using assms by (simp add: handleDelete_begin_def world_defs)

text \<open>
  Claim C4. Every button of the delete-options menu carries
  \<^verbatim>\<open>disabled = isDeleting\<close>. A click on an enabled delete button, with a callback
  provided, sets \<^verbatim>\<open>isDeleting\<close>, and it stays set through every later event until the
  promise of \<^verbatim>\<open>onDelete\<close> settles: the disabled buttons start no second deletion, and
  no other handler writes the flag. When the promise settles, fulfilled or rejected,
  the flag is reset.
\<close>

theorem delete_buttons_disabled_while_deleting:
  "(\<forall>b\<in>set (deleteOptionsButtons p s). disabled b = isDeleting s) \<and>
   (onDelete p = Some f \<and> clickable p (ui w) (DeleteClick d) \<and> (\<forall>ev\<in>set evs. \<not> is_settle ev)
      \<longrightarrow> isDeleting (ui (run p (DeleteClick d # evs) w))) \<and>
   \<not> isDeleting (ui (step p (DeleteSettled settled) w'))"
proof (intro conjI impI ballI)
  fix b assume "b \<in> set (deleteOptionsButtons p s)"
  then show "disabled b = isDeleting s" by (rule buttons_disabled_eq_isDeleting)
next
  assume a: "onDelete p = Some f \<and> clickable p (ui w) (DeleteClick d) \<and>
    (\<forall>ev\<in>set evs. \<not> is_settle ev)"
  then have "isDeleting (ui (step p (DeleteClick d) w))"
    using delete_click_sets_isDeleting by blast
  with a have "isDeleting (ui (run p evs (step p (DeleteClick d) w)))"
    using run_keeps_isDeleting by blast
  then show "isDeleting (ui (run p (DeleteClick d # evs) w))"
    by (simp add: run_def)
next
  show "\<not> isDeleting (ui (step p (DeleteSettled settled) w'))"
    by (simp add: resume_clears_isDeleting)
qed

theorem delete_buttons_disabled_while_deleting_witness:
  "deleteOptionsButtons (sample_props (Some never_settles)) (ui delete_options_open) =
     [\<lparr>label = ''Elimina per me'', disabled = False, onClick = DeleteClick False\<rparr>] \<and>
   \<not> isDeleting (ui delete_options_open) \<and>
   isDeleting (ui (run (sample_props (Some never_settles))
      [DeleteClick False, MessageClick \<lparr>bottom = 10\<rparr> 800, DeleteClick False, MediaLoad]
      delete_options_open)) \<and>
   \<not> isDeleting (ui (step (sample_props (Some never_settles)) (DeleteSettled Fulfilled)
        (run (sample_props (Some never_settles)) [DeleteClick False] delete_options_open)))"
proof -
  let ?p = "sample_props (Some never_settles)"
  let ?evs = "[MessageClick \<lparr>bottom = 10\<rparr> 800, DeleteClick False, MediaLoad]"
  let ?w' = "run ?p [DeleteClick False] delete_options_open"
  have m: "deleteOptionsButtons ?p (ui delete_options_open) =
     [\<lparr>label = ''Elimina per me'', disabled = False, onClick = DeleteClick False\<rparr>]"
    by (simp add: deleteOptionsButtons_def delete_options_open_def sample_defs
        canDeleteForEveryone_def or_bool_def truthy_bool_def)
  have o: "onDelete ?p = Some never_settles"
    by (simp add: sample_props_def)
  have c: "clickable ?p (ui delete_options_open) (DeleteClick False)"
    by (simp add: clickable_def deleteOptionsMenu_def m) (simp add: delete_options_open_def)
  have n: "\<forall>ev\<in>set ?evs. \<not> is_settle ev"
    by (simp add: is_settle_def)
  note T = delete_buttons_disabled_while_deleting [of ?p "ui delete_options_open" never_settles
      delete_options_open False ?evs Fulfilled ?w']
  from T have "\<forall>b\<in>set (deleteOptionsButtons ?p (ui delete_options_open)).
      disabled b = isDeleting (ui delete_options_open)"
    by blast
  then have i: "\<not> isDeleting (ui delete_options_open)"
    unfolding m by simp
  from T o c n have r: "isDeleting (ui (run ?p (DeleteClick False # ?evs) delete_options_open))"
    by blast
  from T have s: "\<not> isDeleting (ui (step ?p (DeleteSettled Fulfilled) ?w'))"
    by blast
  from m i r s show ?thesis by simp
qed

subsection \<open>Clicks outside the message\<close>

lemma handleClickOutside_closes_iff:
  "handleClickOutside messageRef menuRef target s =
     (if (showMenu s \<or> showDeleteOptions s) \<and>
         (\<exists>a b. messageRef = Some a \<and> menuRef = Some b \<and> target \<notin> a \<and> target \<notin> b)
      then s\<lparr>showMenu := False, showDeleteOptions := False\<rparr> else s)"
  by (cases messageRef; cases menuRef) (simp_all add: handleClickOutside_def contains_def)

text \<open>
  While the delete-options menu is open the first menu is not mounted, so \<^verbatim>\<open>menuRef\<close>
  is empty, \<^verbatim>\<open>isClickOutsideMenu\<close> is falsy, and no click on the document closes
  anything.
\<close>

lemma no_menuRef_while_delete_options:
  "showDeleteOptions s \<Longrightarrow> menuRef_current p s menuEl = None"
  by (simp add: menuRef_current_def menuRendered_def)

lemma click_outside_ignored_while_delete_options:
  assumes "showDeleteOptions (ui w)"
  shows "step p (DocumentClick messageEl menuEl target) w = w"
  using assms
  by (simp add: set_ui_def no_menuRef_while_delete_options handleClickOutside_closes_iff)

text \<open>
  Claim C5 does not hold of the code. Clicking the message and then "Elimina" opens
  the delete-options menu; a click on node 7, which lies neither in the message element
  \<open>{1, 2, 3}\<close> nor in the menu element \<open>{3}\<close>, then leaves the state as it is, with
  \<^verbatim>\<open>showDeleteOptions\<close> still set.
\<close>

theorem click_outside_leaves_delete_options_open:
  "ui (run (sample_props None) [MessageClick \<lparr>bottom = 100\<rparr> 800, EliminaClick] initial_world)
     = ui delete_options_open \<and>
   \<not> contains {1, 2, 3} 7 \<and> \<not> contains {3} 7 \<and>
   step (sample_props None) (DocumentClick {1, 2, 3} {3} 7) delete_options_open
     = delete_options_open \<and>
   showDeleteOptions (ui delete_options_open)"
  by (simp add: run_def world_defs sample_defs delete_options_open_def contains_def
      handleMessageClick_def calculateMenuPosition_def js_less_minus_200 eliminaClick_def
      menuRef_current_def menuRendered_def handleClickOutside_def)

subsection \<open>The gesture hook\<close>

lemma handleGesture_prevents_iff:
  "defaultPrevented (handleGesture e) \<longleftrightarrow> defaultPrevented e \<or> 1 < length (touches e)"
  by (simp add: handleGesture_def preventDefault_def)

lemma registered_after_effect:
  "list_ex (same_registration ''touchstart'' HandleGesture False) (useNativeBehavior_effect doc)"
  by (simp add: useNativeBehavior_effect_def addEventListener_def same_registration_def list_ex_iff)

lemma unregistered_after_cleanup:
  "\<not> list_ex (same_registration ''touchstart'' HandleGesture False) (useNativeBehavior_cleanup doc)"
  by (simp add: useNativeBehavior_cleanup_def removeEventListener_def list_ex_iff)

lemma cleanup_restores:
  assumes "\<not> list_ex (same_registration ''touchstart'' HandleGesture False) doc"
  shows "useNativeBehavior_cleanup (useNativeBehavior_effect doc) = doc"
proof -
  have "filter (\<lambda>r. \<not> same_registration ''touchstart'' HandleGesture False r) doc = doc"
    using assms by (simp add: list_ex_iff filter_id_conv)
  with assms show ?thesis
    by (simp add: useNativeBehavior_cleanup_def useNativeBehavior_effect_def
        addEventListener_def removeEventListener_def same_registration_def)
qed

text \<open>
  Claim C6. The touchstart handler of \<^verbatim>\<open>useNativeBehavior\<close> calls
  \<^verbatim>\<open>preventDefault\<close> exactly when the event has more than one touch point and returns a
  single-touch event as it got it. The effect registers the handler, the cleanup
  removes it and restores the listeners that were there before; while mounted, a
  dispatched touchstart event goes through the handler, and after the cleanup it no
  longer does.
\<close>

theorem useNativeBehavior_suppresses_multi_touch:
  "(defaultPrevented (handleGesture e) \<longleftrightarrow> defaultPrevented e \<or> 1 < length (touches e)) \<and>
   (1 < length (touches e) \<longrightarrow> handleGesture e = preventDefault e) \<and>
   (length (touches e) \<le> 1 \<longrightarrow> handleGesture e = e) \<and>
   list_ex (same_registration ''touchstart'' HandleGesture False) (useNativeBehavior_effect doc) \<and>
   \<not> list_ex (same_registration ''touchstart'' HandleGesture False)
       (useNativeBehavior_cleanup (useNativeBehavior_effect doc)) \<and>
   (\<not> list_ex (same_registration ''touchstart'' HandleGesture False) doc \<longrightarrow>
      useNativeBehavior_cleanup (useNativeBehavior_effect doc) = doc) \<and>
   dispatch_touchstart (useNativeBehavior_effect []) e = handleGesture e \<and>
   dispatch_touchstart (useNativeBehavior_cleanup (useNativeBehavior_effect [])) e = e"
proof (intro conjI impI)
  show "defaultPrevented (handleGesture e) \<longleftrightarrow> defaultPrevented e \<or> 1 < length (touches e)"
    by (rule handleGesture_prevents_iff)
  show "handleGesture e = preventDefault e" if "1 < length (touches e)"
    using that by (simp add: handleGesture_def)
  show "handleGesture e = e" if "length (touches e) \<le> 1"
    using that by (simp add: handleGesture_def)
  show "list_ex (same_registration ''touchstart'' HandleGesture False) (useNativeBehavior_effect doc)"
    by (rule registered_after_effect)
  show "\<not> list_ex (same_registration ''touchstart'' HandleGesture False)
       (useNativeBehavior_cleanup (useNativeBehavior_effect doc))"
    by (rule unregistered_after_cleanup)
  show "useNativeBehavior_cleanup (useNativeBehavior_effect doc) = doc"
    if "\<not> list_ex (same_registration ''touchstart'' HandleGesture False) doc"
    using that by (rule cleanup_restores)
  show "dispatch_touchstart (useNativeBehavior_effect []) e = handleGesture e"
    by (simp add: dispatch_touchstart_def useNativeBehavior_effect_def addEventListener_def
        run_listener_def)
  show "dispatch_touchstart (useNativeBehavior_cleanup (useNativeBehavior_effect [])) e = e"
    by (simp add: dispatch_touchstart_def useNativeBehavior_effect_def addEventListener_def
        useNativeBehavior_cleanup_def removeEventListener_def same_registration_def)
qed

theorem useNativeBehavior_suppresses_multi_touch_witness:
  "defaultPrevented (handleGesture \<lparr>touches = [0, 1], defaultPrevented = False\<rparr>) \<and>
   handleGesture \<lparr>touches = [0], defaultPrevented = False\<rparr>
     = \<lparr>touches = [0], defaultPrevented = False\<rparr> \<and>
   useNativeBehavior_cleanup (useNativeBehavior_effect []) = []"
  using useNativeBehavior_suppresses_multi_touch
          [of "\<lparr>touches = [0, 1], defaultPrevented = False\<rparr>" "[]"]
        useNativeBehavior_suppresses_multi_touch
          [of "\<lparr>touches = [0], defaultPrevented = False\<rparr>" "[]"]
  by (simp add: preventDefault_def)

subsection \<open>Media loading\<close>

lemma resume_isMediaLoading:
  "isMediaLoading (ui (snd (handleDelete_resume settled w))) = isMediaLoading (ui w)"
proof (cases settled)
  case Fulfilled
  then show ?thesis by (simp add: finally_block_def world_defs)
next
  case (Rejected r)
  then show ?thesis
    by (cases r) (simp_all add: catch_block_def finally_block_def world_defs)
qed

lemma step_isMediaLoading:
  "isMediaLoading (ui (step p ev w)) = (ev \<noteq> MediaLoad \<and> isMediaLoading (ui w))"
  by (cases ev)
     (simp_all add: world_defs handler_defs resume_isMediaLoading Let_def split: option.splits)

lemma run_isMediaLoading:
  "\<not> isMediaLoading (ui w) \<Longrightarrow> \<not> isMediaLoading (ui (run p evs w))"
  unfolding run_def
proof (induction evs arbitrary: w)
  case Nil
  then show ?case by simp
next
  case (Cons ev evs)
  then show ?case by (simp add: step_isMediaLoading)
qed

lemma renderMedia_load_handler:
  assumes "truthy_string (mediaUrl p)" and "mediaType p = Some mt" and "mt \<noteq> Document"
  shows "\<exists>v. renderMedia p s = Some v \<and> onLoad v = Some MediaLoad \<and>
             loadingIndicator v = isMediaLoading s"
  using assms by (cases mt) (simp_all add: renderMedia_def)

text \<open>
  Claim C7. \<^verbatim>\<open>isMediaLoading\<close> starts as true. A photo, a video and an audio
  element are rendered with the load handler, which clears the flag, and show the
  loading indicator exactly while the flag is set. No other event changes the flag, so
  once it is cleared it stays cleared whatever happens next.
\<close>

theorem isMediaLoading_cleared_once:
  "isMediaLoading (ui initial_world) \<and>
   (truthy_string (mediaUrl p) \<and> mediaType p = Some mt \<and> mt \<in> {Photo, Video, Audio} \<longrightarrow>
      (\<exists>v. renderMedia p s = Some v \<and> onLoad v = Some MediaLoad \<and>
           loadingIndicator v = isMediaLoading s)) \<and>
   \<not> isMediaLoading (ui (step p MediaLoad w)) \<and>
   (ev \<noteq> MediaLoad \<longrightarrow> isMediaLoading (ui (step p ev w)) = isMediaLoading (ui w)) \<and>
   (\<not> isMediaLoading (ui w) \<longrightarrow> \<not> isMediaLoading (ui (run p evs w)))"
proof (intro conjI impI)
  show "isMediaLoading (ui initial_world)"
    by (simp add: sample_defs)
  show "\<exists>v. renderMedia p s = Some v \<and> onLoad v = Some MediaLoad \<and>
           loadingIndicator v = isMediaLoading s"
    if "truthy_string (mediaUrl p) \<and> mediaType p = Some mt \<and> mt \<in> {Photo, Video, Audio}"
    using that renderMedia_load_handler [of p mt s] by auto
  show "\<not> isMediaLoading (ui (step p MediaLoad w))"
    using step_isMediaLoading [of p MediaLoad w] by blast
  show "isMediaLoading (ui (step p ev w)) = isMediaLoading (ui w)" if "ev \<noteq> MediaLoad"
    using that by (simp add: step_isMediaLoading)
  show "\<not> isMediaLoading (ui (run p evs w))" if "\<not> isMediaLoading (ui w)"
    using that by (rule run_isMediaLoading)
qed

theorem isMediaLoading_cleared_once_witness:
  "renderMedia photo_props initial_component =
     Some \<lparr>element = Img, onLoad = Some MediaLoad, loadingIndicator = True\<rparr> \<and>
   \<not> isMediaLoading (ui (run photo_props [MediaLoad, MessageClick \<lparr>bottom = 10\<rparr> 800, EliminaClick]
        initial_world))"
proof -
  have r: "renderMedia photo_props initial_component =
     Some \<lparr>element = Img, onLoad = Some MediaLoad, loadingIndicator = True\<rparr>"
    by (simp add: renderMedia_def photo_props_def sample_defs truthy_string_def)
  note T = isMediaLoading_cleared_once [of photo_props Photo initial_component
      "initial_world" EliminaClick "[MessageClick \<lparr>bottom = 10\<rparr> 800, EliminaClick]"]
  note U = isMediaLoading_cleared_once [of photo_props Photo initial_component
      "step photo_props MediaLoad initial_world"
      EliminaClick "[MessageClick \<lparr>bottom = 10\<rparr> 800, EliminaClick]"]
  have h: "truthy_string (mediaUrl photo_props) \<and> mediaType photo_props = Some Photo \<and>
      Photo \<in> {Photo, Video, Audio}"
    by (simp add: photo_props_def sample_props_def truthy_string_def)
  with T have x: "\<exists>v. renderMedia photo_props initial_component = Some v \<and>
      onLoad v = Some MediaLoad \<and> loadingIndicator v = isMediaLoading initial_component"
    by blast
  from T have a: "\<not> isMediaLoading (ui (step photo_props MediaLoad initial_world))"
    by blast
  with U have "\<not> isMediaLoading (ui (run photo_props [MessageClick \<lparr>bottom = 10\<rparr> 800, EliminaClick]
      (step photo_props MediaLoad initial_world)))"
    by blast
  then have "\<not> isMediaLoading (ui (run photo_props
      [MediaLoad, MessageClick \<lparr>bottom = 10\<rparr> 800, EliminaClick] initial_world))"
    by (simp add: run_def)
  with x r show ?thesis by simp
qed

subsection \<open>Who may delete for everyone\<close>

lemma canDeleteForEveryone_truthy:
  "truthy_bool (canDeleteForEveryone p) \<longleftrightarrow>
     isMe p \<or> isAdmin p = Some True \<or> isGroupCreator p = Some True"
  by (cases "isAdmin p"; cases "isGroupCreator p")
     (auto simp: canDeleteForEveryone_def or_bool_def truthy_bool_def)

text \<open>
  Claim C8. The delete-options menu has the button that deletes for everyone
  (labelled "Elimina per tutti" unless a deletion is pending) if and only if the viewer
  is the sender, a group admin or the group creator; for every other combination of
  properties its only button is the one that deletes for the viewer ("Elimina per me").
  The menu is mounted with exactly these buttons whenever \<^verbatim>\<open>showDeleteOptions\<close> holds.
\<close>

theorem delete_for_everyone_rendered_iff:
  "((\<exists>b\<in>set (deleteOptionsButtons p s). onClick b = DeleteClick True) \<longleftrightarrow>
      isMe p \<or> isAdmin p = Some True \<or> isGroupCreator p = Some True) \<and>
   (isMe p \<or> isAdmin p = Some True \<or> isGroupCreator p = Some True \<longrightarrow>
      map onClick (deleteOptionsButtons p s) = [DeleteClick False, DeleteClick True] \<and>
      (\<not> isDeleting s \<longrightarrow>
         map label (deleteOptionsButtons p s) = [''Elimina per me'', ''Elimina per tutti''])) \<and>
   (\<not> (isMe p \<or> isAdmin p = Some True \<or> isGroupCreator p = Some True) \<longrightarrow>
      map onClick (deleteOptionsButtons p s) = [DeleteClick False] \<and>
      (\<not> isDeleting s \<longrightarrow> map label (deleteOptionsButtons p s) = [''Elimina per me''])) \<and>
   (showDeleteOptions s \<longrightarrow> deleteOptionsMenu p s = Some (deleteOptionsButtons p s))"
proof (cases "truthy_bool (canDeleteForEveryone p)")
  case True
  then have "map onClick (deleteOptionsButtons p s) = [DeleteClick False, DeleteClick True]"
    and "\<not> isDeleting s \<longrightarrow>
      map label (deleteOptionsButtons p s) = [''Elimina per me'', ''Elimina per tutti'']"
    and "\<exists>b\<in>set (deleteOptionsButtons p s). onClick b = DeleteClick True"
    by (simp_all add: deleteOptionsButtons_def)
  moreover from True have "isMe p \<or> isAdmin p = Some True \<or> isGroupCreator p = Some True"
    by (simp add: canDeleteForEveryone_truthy)
  moreover have "showDeleteOptions s \<longrightarrow> deleteOptionsMenu p s = Some (deleteOptionsButtons p s)"
    by (simp add: deleteOptionsMenu_def)
  ultimately show ?thesis by blast
next
  case False
  then have "map onClick (deleteOptionsButtons p s) = [DeleteClick False]"
    and "\<not> isDeleting s \<longrightarrow> map label (deleteOptionsButtons p s) = [''Elimina per me'']"
    and "\<not> (\<exists>b\<in>set (deleteOptionsButtons p s). onClick b = DeleteClick True)"
    by (simp_all add: deleteOptionsButtons_def)
  moreover from False have "\<not> (isMe p \<or> isAdmin p = Some True \<or> isGroupCreator p = Some True)"
    by (simp add: canDeleteForEveryone_truthy)
  moreover have "showDeleteOptions s \<longrightarrow> deleteOptionsMenu p s = Some (deleteOptionsButtons p s)"
    by (simp add: deleteOptionsMenu_def)
  ultimately show ?thesis by blast
qed

theorem delete_for_everyone_rendered_iff_witness:
  "map label (deleteOptionsButtons admin_props (ui delete_options_open)) =
     [''Elimina per me'', ''Elimina per tutti''] \<and>
   map label (deleteOptionsButtons (sample_props None) (ui delete_options_open)) =
     [''Elimina per me''] \<and>
   deleteOptionsMenu admin_props (ui delete_options_open) =
     Some (deleteOptionsButtons admin_props (ui delete_options_open))"
proof -
  have a: "isAdmin admin_props = Some True"
    by (simp add: admin_props_def)
  have b: "\<not> (isMe (sample_props None) \<or> isAdmin (sample_props None) = Some True \<or>
      isGroupCreator (sample_props None) = Some True)"
    by (simp add: sample_props_def)
  have d: "\<not> isDeleting (ui delete_options_open)" and o: "showDeleteOptions (ui delete_options_open)"
    by (simp_all add: delete_options_open_def initial_component_def)
  note A = delete_for_everyone_rendered_iff [of admin_props "ui delete_options_open"]
  note B = delete_for_everyone_rendered_iff [of "sample_props None" "ui delete_options_open"]
  from A a d have 1: "map label (deleteOptionsButtons admin_props (ui delete_options_open)) =
     [''Elimina per me'', ''Elimina per tutti'']"
    by blast
  from B b d have 2: "map label (deleteOptionsButtons (sample_props None)
      (ui delete_options_open)) = [''Elimina per me'']"
    by blast
  from A o have 3: "deleteOptionsMenu admin_props (ui delete_options_open) =
     Some (deleteOptionsButtons admin_props (ui delete_options_open))"
    by blast
  from 1 2 3 show ?thesis by blast
qed

subsection \<open>The two menus exclude each other\<close>

lemma resume_menus_exclusive:
  "menus_exclusive (ui w) \<Longrightarrow> menus_exclusive (ui (snd (handleDelete_resume settled w)))"
proof (cases settled)
  case Fulfilled
  then show ?thesis by (simp add: finally_block_def world_defs menus_exclusive_def)
next
  case (Rejected r)
  assume "menus_exclusive (ui w)"
  with Rejected show ?thesis
    by (cases r) (simp_all add: catch_block_def finally_block_def world_defs menus_exclusive_def)
qed

lemma handleClickOutside_menus_exclusive:
  "menus_exclusive s \<Longrightarrow> menus_exclusive (handleClickOutside messageRef menuRef target s)"
  by (simp add: handleClickOutside_closes_iff menus_exclusive_def)

lemma step_menus_exclusive:
  assumes "menus_exclusive (ui w)"
  shows "menus_exclusive (ui (step p ev w))"
proof (cases ev)
  case (DeleteSettled settled)
  with assms show ?thesis by (simp add: resume_menus_exclusive)
next
  case (DocumentClick messageEl menuEl target)
  with assms show ?thesis by (simp add: set_ui_def handleClickOutside_menus_exclusive)
next
  case (MessageClick r h)
  with assms show ?thesis
    by (auto simp: set_ui_def handleMessageClick_def calculateMenuPosition_def menus_exclusive_def)
next
  case (DeleteClick d)
  with assms show ?thesis
    by (simp add: handleDelete_begin_def world_defs menus_exclusive_def split: option.splits)
qed (use assms in \<open>simp_all add: world_defs handleCopy_def handleShare_begin_def
      handleShare_resume_def eliminaClick_def handleMediaLoad_def toggleAudio_def
      menus_exclusive_def\<close>)

lemma run_menus_exclusive:
  "menus_exclusive (ui w) \<Longrightarrow> menus_exclusive (ui (run p evs w))"
  unfolding run_def
proof (induction evs arbitrary: w)
  case Nil
  then show ?case by simp
next
  case (Cons ev evs)
  then show ?case by (simp add: step_menus_exclusive)
qed

lemma handleDelete_menus_exclusive:
  assumes "menus_exclusive (ui w)"
  shows "menus_exclusive (ui (snd (handleDelete p d w)))"
proof (cases "onDelete p")
  case None
  with assms show ?thesis by (simp add: handleDelete_def)
next
  case (Some f)
  from assms have b: "menus_exclusive (ui (handleDelete_begin p d w))"
    by (simp add: handleDelete_begin_def world_defs menus_exclusive_def)
  show ?thesis
  proof (cases "f (id' p) d")
    case None
    with Some b show ?thesis by (simp add: handleDelete_def)
  next
    case (Some settled)
    with \<open>onDelete p = Some f\<close> resume_menus_exclusive [OF b, of settled]
    show ?thesis by (simp add: handleDelete_def)
  qed
qed

text \<open>
  Claim C9. \<^verbatim>\<open>showMenu\<close> and \<^verbatim>\<open>showDeleteOptions\<close> are never both true: the initial
  state has neither, every handler (each half of the asynchronous ones, and
  \<^verbatim>\<open>handleDelete\<close> run through as well) keeps at most one of them set, and so does
  every sequence of events from the initial state.
\<close>

theorem menus_never_both_open:
  "menus_exclusive (ui initial_world) \<and>
   (menus_exclusive (ui w) \<longrightarrow> menus_exclusive (ui (step p ev w))) \<and>
   (menus_exclusive (ui w) \<longrightarrow> menus_exclusive (ui (snd (handleDelete p d w)))) \<and>
   \<not> (showMenu (ui (run p evs initial_world)) \<and> showDeleteOptions (ui (run p evs initial_world)))"
proof (intro conjI impI)
  show "menus_exclusive (ui (snd (handleDelete p d w)))" if "menus_exclusive (ui w)"
    using that by (rule handleDelete_menus_exclusive)
  show i: "menus_exclusive (ui initial_world)"
    by (simp add: menus_exclusive_def sample_defs)
  show "menus_exclusive (ui (step p ev w))" if "menus_exclusive (ui w)"
    using that by (rule step_menus_exclusive)
  from i have "menus_exclusive (ui (run p evs initial_world))"
    by (rule run_menus_exclusive)
  then show "\<not> (showMenu (ui (run p evs initial_world)) \<and>
      showDeleteOptions (ui (run p evs initial_world)))"
    by (simp add: menus_exclusive_def)
qed

theorem menus_never_both_open_witness:
  "menus_exclusive (ui (step (sample_props (Some resolve_ok)) EliminaClick
      (step (sample_props (Some resolve_ok)) (MessageClick \<lparr>bottom = 10\<rparr> 800) initial_world))) \<and>
   showDeleteOptions (ui (step (sample_props (Some resolve_ok)) EliminaClick
      (step (sample_props (Some resolve_ok)) (MessageClick \<lparr>bottom = 10\<rparr> 800) initial_world))) \<and>
   \<not> showMenu (ui (run (sample_props (Some resolve_ok))
      [MessageClick \<lparr>bottom = 10\<rparr> 800, EliminaClick] initial_world))"
proof -
  let ?p = "sample_props (Some resolve_ok)"
  let ?w1 = "step ?p (MessageClick \<lparr>bottom = 10\<rparr> 800) initial_world"
  note A = menus_never_both_open [where w = initial_world and p = ?p
      and ev = "MessageClick \<lparr>bottom = 10\<rparr> 800"
      and evs = "[MessageClick \<lparr>bottom = 10\<rparr> 800, EliminaClick]"]
  note B = menus_never_both_open [where w = ?w1 and p = ?p and ev = EliminaClick]
  from A have "menus_exclusive (ui ?w1)" by blast
  with B have e: "menus_exclusive (ui (step ?p EliminaClick ?w1))" by blast
  have s: "showDeleteOptions (ui (step ?p EliminaClick ?w1))"
    by (simp add: set_ui_def eliminaClick_def)
  then have "showDeleteOptions (ui (run ?p [MessageClick \<lparr>bottom = 10\<rparr> 800, EliminaClick]
      initial_world))"
    by (simp add: run_def)
  with A have "\<not> showMenu (ui (run ?p [MessageClick \<lparr>bottom = 10\<rparr> 800, EliminaClick]
      initial_world))"
    by blast
  with e s show ?thesis by blast
qed

subsection \<open>What handleDelete does to the menus\<close>

lemma handleDelete_rejected_state:
  assumes "onDelete p = Some f" and "f (id' p) d = Some (Rejected r)"
  shows "ui (snd (handleDelete p d w)) = (ui w)\<lparr>isDeleting := False\<rparr>"
  using assms by (cases r) (simp_all add: delete_defs world_defs)

lemma handleDelete_fulfilled_state:
  assumes "onDelete p = Some f" and "f (id' p) d = Some Fulfilled"
  shows "ui (snd (handleDelete p d w)) =
           (ui w)\<lparr>isDeleting := False, showDeleteOptions := False, showMenu := False\<rparr>"
  using assms by (simp add: delete_defs world_defs)

lemma handleDelete_pending_state:
  assumes "onDelete p = Some f" and "f (id' p) d = None"
  shows "ui (snd (handleDelete p d w)) = (ui w)\<lparr>isDeleting := True\<rparr>"
  using assms by (simp add: delete_defs world_defs)

text \<open>
  Claim C10. Without a callback \<^verbatim>\<open>handleDelete\<close> returns at once and leaves the state
  and the log as they are. When the callback rejects, with whatever value, the state
  afterwards is the state before with \<^verbatim>\<open>isDeleting\<close> false: \<^verbatim>\<open>showDeleteOptions\<close> and
  \<^verbatim>\<open>showMenu\<close> keep their values. When it is fulfilled, both are false and so is
  \<^verbatim>\<open>isDeleting\<close>. While it has not settled, only \<^verbatim>\<open>isDeleting\<close> has changed.
\<close>

theorem handleDelete_menu_state:
  "(onDelete p = None \<longrightarrow> handleDelete p d w = (Returned, w)) \<and>
   (onDelete p = Some f \<and> f (id' p) d = Some (Rejected r) \<longrightarrow>
      ui (snd (handleDelete p d w)) = (ui w)\<lparr>isDeleting := False\<rparr> \<and>
      showDeleteOptions (ui (snd (handleDelete p d w))) = showDeleteOptions (ui w) \<and>
      showMenu (ui (snd (handleDelete p d w))) = showMenu (ui w) \<and>
      \<not> isDeleting (ui (snd (handleDelete p d w)))) \<and>
   (onDelete p = Some f \<and> f (id' p) d = Some Fulfilled \<longrightarrow>
      ui (snd (handleDelete p d w)) =
        (ui w)\<lparr>isDeleting := False, showDeleteOptions := False, showMenu := False\<rparr> \<and>
      \<not> showDeleteOptions (ui (snd (handleDelete p d w))) \<and>
      \<not> showMenu (ui (snd (handleDelete p d w))) \<and>
      \<not> isDeleting (ui (snd (handleDelete p d w)))) \<and>
   (onDelete p = Some f \<and> f (id' p) d = None \<longrightarrow>
      ui (snd (handleDelete p d w)) = (ui w)\<lparr>isDeleting := True\<rparr>)"
proof (intro conjI impI)
  show "handleDelete p d w = (Returned, w)" if "onDelete p = None"
    using that by (simp add: handleDelete_def)
next
  assume a: "onDelete p = Some f \<and> f (id' p) d = Some (Rejected r)"
  then have e: "ui (snd (handleDelete p d w)) = (ui w)\<lparr>isDeleting := False\<rparr>"
    using handleDelete_rejected_state by blast
  show "ui (snd (handleDelete p d w)) = (ui w)\<lparr>isDeleting := False\<rparr>" by (rule e)
  show "showDeleteOptions (ui (snd (handleDelete p d w))) = showDeleteOptions (ui w)"
    by (simp add: e)
  show "showMenu (ui (snd (handleDelete p d w))) = showMenu (ui w)"
    by (simp add: e)
  show "\<not> isDeleting (ui (snd (handleDelete p d w)))"
    by (simp add: e)
next
  assume a: "onDelete p = Some f \<and> f (id' p) d = Some Fulfilled"
  then have e: "ui (snd (handleDelete p d w)) =
        (ui w)\<lparr>isDeleting := False, showDeleteOptions := False, showMenu := False\<rparr>"
    using handleDelete_fulfilled_state by blast
  show "ui (snd (handleDelete p d w)) =
        (ui w)\<lparr>isDeleting := False, showDeleteOptions := False, showMenu := False\<rparr>" by (rule e)
  show "\<not> showDeleteOptions (ui (snd (handleDelete p d w)))"
    by (simp add: e)
  show "\<not> showMenu (ui (snd (handleDelete p d w)))"
    by (simp add: e)
  show "\<not> isDeleting (ui (snd (handleDelete p d w)))"
    by (simp add: e)
next
  assume "onDelete p = Some f \<and> f (id' p) d = None"
  then show "ui (snd (handleDelete p d w)) = (ui w)\<lparr>isDeleting := True\<rparr>"
    using handleDelete_pending_state by blast
qed

theorem handleDelete_menu_state_witness:
  "handleDelete (sample_props None) False delete_options_open = (Returned, delete_options_open) \<and>
   ui (snd (handleDelete (sample_props (Some reject_nullish)) False delete_options_open))
     = ui delete_options_open \<and>
   ui (snd (handleDelete (sample_props (Some resolve_ok)) False delete_options_open))
     = initial_component \<and>
   isDeleting (ui (snd (handleDelete (sample_props (Some never_settles)) False
     delete_options_open)))"
proof -
  have n: "onDelete (sample_props None) = None"
    by (simp add: sample_props_def)
  have r: "onDelete (sample_props (Some reject_nullish)) = Some reject_nullish \<and>
      reject_nullish (id' (sample_props (Some reject_nullish))) False = Some (Rejected Nullish)"
    by (simp add: sample_props_def reject_nullish_def)
  have f: "onDelete (sample_props (Some resolve_ok)) = Some resolve_ok \<and>
      resolve_ok (id' (sample_props (Some resolve_ok))) False = Some Fulfilled"
    by (simp add: sample_props_def resolve_ok_def)
  have q: "onDelete (sample_props (Some never_settles)) = Some never_settles \<and>
      never_settles (id' (sample_props (Some never_settles))) False = None"
    by (simp add: sample_props_def never_settles_def)
  from n handleDelete_menu_state
    [where p = "sample_props None" and d = False and w = delete_options_open]
  have a: "handleDelete (sample_props None) False delete_options_open
      = (Returned, delete_options_open)"
    by blast
  from r handleDelete_menu_state
    [where p = "sample_props (Some reject_nullish)" and f = reject_nullish
      and d = False and r = Nullish and w = delete_options_open]
  have "ui (snd (handleDelete (sample_props (Some reject_nullish)) False delete_options_open))
      = (ui delete_options_open)\<lparr>isDeleting := False\<rparr>"
    by blast
  then have b: "ui (snd (handleDelete (sample_props (Some reject_nullish)) False
      delete_options_open)) = ui delete_options_open"
    by (simp add: delete_options_open_def initial_component_def)
  from f handleDelete_menu_state
    [where p = "sample_props (Some resolve_ok)" and f = resolve_ok
      and d = False and w = delete_options_open]
  have "ui (snd (handleDelete (sample_props (Some resolve_ok)) False delete_options_open))
      = (ui delete_options_open)\<lparr>isDeleting := False, showDeleteOptions := False,
          showMenu := False\<rparr>"
    by blast
  then have c: "ui (snd (handleDelete (sample_props (Some resolve_ok)) False
      delete_options_open)) = initial_component"
    by (simp add: delete_options_open_def initial_component_def)
  from q handleDelete_menu_state
    [where p = "sample_props (Some never_settles)" and f = never_settles
      and d = False and w = delete_options_open]
  have "ui (snd (handleDelete (sample_props (Some never_settles)) False delete_options_open))
      = (ui delete_options_open)\<lparr>isDeleting := True\<rparr>"
    by blast
  then have e: "isDeleting (ui (snd (handleDelete (sample_props (Some never_settles)) False
     delete_options_open)))"
    by simp
  from a b c e show ?thesis by blast
qed

end
